theory Spec2Isabelle
  imports Main "HOL-Library.Word"
begin

section \<open>Python values used by the sample\<close>

subsection \<open>Strings\<close>

text \<open>
  A Python \<open>str\<close> is a sequence of Unicode code points, so a character is modelled by
  its code point and a string by the list of them. \<open>py\<close> embeds an ASCII literal.
\<close>

type_synonym pychar = nat
type_synonym pystr = "pychar list"

definition py :: "string \<Rightarrow> pystr" where
  "py s = map of_char s"

text \<open>
  The characters \<open>str.strip()\<close> removes when called without an argument: those for which
  CPython's whitespace test holds (U+0009..U+000D, U+001C..U+0020, U+0085, U+00A0,
  U+1680, U+2000..U+200A, U+2028, U+2029, U+202F, U+205F, U+3000).
\<close>

definition py_isspace :: "pychar \<Rightarrow> bool" where
  "py_isspace c =
     ((9 \<le> c \<and> c \<le> 13) \<or> (28 \<le> c \<and> c \<le> 32) \<or> c = 133 \<or> c = 160 \<or> c = 5760 \<or>
      (8192 \<le> c \<and> c \<le> 8202) \<or> c = 8232 \<or> c = 8233 \<or> c = 8239 \<or> c = 8287 \<or>
      c = 12288)"

definition py_lstrip :: "pystr \<Rightarrow> pystr" where
  "py_lstrip s = dropWhile py_isspace s"

definition py_rstrip :: "pystr \<Rightarrow> pystr" where
  "py_rstrip s = rev (dropWhile py_isspace (rev s))"

definition py_strip :: "pystr \<Rightarrow> pystr" where
  "py_strip s = py_rstrip (py_lstrip s)"

text \<open>\<open>sep.join(xs)\<close>.\<close>

fun py_join :: "pystr \<Rightarrow> pystr list \<Rightarrow> pystr" where
  "py_join sep [] = []"
| "py_join sep [x] = x"
| "py_join sep (x # y # ys) = x @ sep @ py_join sep (y # ys)"

subsection \<open>JSON documents\<close>

text \<open>
  What \<open>json.loads\<close> produces: \<open>None\<close>, \<open>bool\<close>, \<open>int\<close>, \<open>float\<close>, \<open>str\<close>, \<open>list\<close> and
  \<open>dict\<close>. A \<open>float\<close> is an IEEE 754 double, kept as its 64 bits: nothing in the sample
  computes with one. A \<open>dict\<close> keeps its items in insertion order; its keys are pairwise
  distinct.
\<close>

type_synonym pyfloat = "64 word"

datatype json =
    JNull
  | JBool bool
  | JInt int
  | JFloat pyfloat
  | JStr pystr
  | JList "json list"
  | JObj "(pystr \<times> json) list"

type_synonym pydict = "(pystr \<times> json) list"

definition keys :: "pydict \<Rightarrow> pystr list" where
  "keys d = map fst d"

definition is_dict :: "pydict \<Rightarrow> bool" where
  "is_dict d = distinct (keys d)"

text \<open>\<open>d[k] = v\<close>: an existing key keeps its position, a new key goes last.\<close>

fun dict_setitem :: "pydict \<Rightarrow> pystr \<Rightarrow> json \<Rightarrow> pydict" where
  "dict_setitem [] k v = [(k, v)]"
| "dict_setitem ((k', v') # d) k v =
     (if k' = k then (k, v) # d else (k', v') # dict_setitem d k v)"

text \<open>\<open>d |= other\<close> for a \<open>dict\<close> \<open>other\<close>: every item of \<open>other\<close>, in order, is stored into \<open>d\<close>.\<close>

fun dict_ior :: "pydict \<Rightarrow> pydict \<Rightarrow> pydict" where
  "dict_ior d [] = d"
| "dict_ior d ((k, v) # other) = dict_ior (dict_setitem d k v) other"

text \<open>\<open>d.get(k)\<close>: the value stored under \<open>k\<close>, or \<open>None\<close>.\<close>

definition dict_get :: "pydict \<Rightarrow> pystr \<Rightarrow> json" where
  "dict_get d k = (case map_of d k of None \<Rightarrow> JNull | Some v \<Rightarrow> v)"

section \<open>config_helpers.py\<close>

subsection \<open>Paths, files and exceptions\<close>

text \<open>
  \<open>here\<close> is an absolute path (\<open>Path(__file__).resolve().parent\<close>). An absolute POSIX path
  is the list of its components below the root; \<open>p.parent\<close> drops the last one (the root
  is its own parent), \<open>p / name\<close> appends one, and \<open>str(p)\<close> writes them after \<open>/\<close>.
\<close>

type_synonym path = "pystr list"

definition parent :: "path \<Rightarrow> path" where
  "parent p = butlast p"

definition joinpath :: "path \<Rightarrow> pystr \<Rightarrow> path" where
  "joinpath p name = p @ [name]"

definition path_str :: "path \<Rightarrow> pystr" where
  "path_str p = py ''/'' @ py_join (py ''/'') p"

text \<open>
  The exceptions the sample raises or lets through. \<open>FileNotFoundError\<close> and \<open>ValueError\<close>
  are the two the sample raises itself, with their messages. \<open>OSError\<close> is an error of the
  operating system on a path, whatever its subclass (\<open>PermissionError\<close>, a name that is too
  long, a missing file that is opened); \<open>UnicodeDecodeError\<close> and \<open>JSONDecodeError\<close> carry
  the path \<open>load_json\<close> was reading. \<open>CancelledError\<close> is what the event loop throws into
  a cancelled task. \<open>OtherError\<close> is any exception of the chat client or of the terminal.
\<close>

datatype error =
    FileNotFoundError pystr
  | ValueError pystr
  | OSError path
  | UnicodeDecodeError path
  | JSONDecodeError path
  | EOFError
  | KeyboardInterrupt
  | CancelledError
  | OtherError pystr

definition and_then :: "error + 'a \<Rightarrow> ('a \<Rightarrow> error + 'b) \<Rightarrow> error + 'b" where
  "and_then r f = (case r of Inl e \<Rightarrow> Inl e | Inr x \<Rightarrow> f x)"

text \<open>
  What \<open>stat\<close> finds at a path. \<open>Missing\<close>: it fails with one of the errors \<open>Path.exists\<close>
  takes for absence (no such file, a component that is not a directory, a symbolic link
  loop). \<open>Inaccessible\<close>: it fails with any other error (a directory on the way that may not
  be searched, a name that is too long). \<open>Found\<close>: it succeeds, and the entry is something
  \<open>read_text\<close> cannot open or read (a directory, a file without read permission), bytes
  that are not UTF-8, text that is not JSON, or a JSON object. \<open>load_json\<close> is annotated to
  return \<open>dict[str, Any]\<close>; a document whose top-level value is not an object is outside
  that annotation and outside this model.
\<close>

datatype entry = Unreadable | NotUTF8 | Malformed | Document pydict

datatype status = Missing | Inaccessible | Found entry

type_synonym filesystem = "path \<Rightarrow> status"

text \<open>
  \<open>p.exists()\<close>: \<open>False\<close> for the errors that mean absence; every other \<open>OSError\<close> of
  \<open>stat\<close> is raised again.
\<close>

definition path_exists :: "filesystem \<Rightarrow> path \<Rightarrow> error + bool" where
  "path_exists fs p =
     (case fs p of
        Missing \<Rightarrow> Inr False
      | Inaccessible \<Rightarrow> Inl (OSError p)
      | Found f \<Rightarrow> Inr True)"

subsection \<open>load_json, require_str, resolve_appsettings_paths\<close>

definition load_json :: "filesystem \<Rightarrow> path \<Rightarrow> error + pydict" where
  "load_json fs p =
     (case fs p of
        Missing \<Rightarrow> Inl (OSError p)
      | Inaccessible \<Rightarrow> Inl (OSError p)
      | Found Unreadable \<Rightarrow> Inl (OSError p)
      | Found NotUTF8 \<Rightarrow> Inl (UnicodeDecodeError p)
      | Found Malformed \<Rightarrow> Inl (JSONDecodeError p)
      | Found (Document d) \<Rightarrow> Inr d)"

definition require_str :: "pydict \<Rightarrow> pystr \<Rightarrow> error + pystr" where
  "require_str config key =
     (case dict_get config key of
        JStr s \<Rightarrow>
          if py_strip s = []
          then Inl (ValueError (key @ py '' not found in appsettings.Development.json''))
          else Inr s
      | _ \<Rightarrow> Inl (ValueError (key @ py '' not found in appsettings.Development.json'')))"

definition base :: "path \<Rightarrow> path" where
  "base here =
     (let solution_root = parent here
      in joinpath (joinpath solution_root (py ''AgentFramework'')) (py ''appsettings.json''))"

definition candidates :: "path \<Rightarrow> path list" where
  "candidates here =
     (let solution_root = parent here
      in [joinpath here (py ''appsettings.Development.json''),
          joinpath (joinpath solution_root (py ''AgentFramework''))
            (py ''appsettings.Development.json''),
          joinpath (joinpath (joinpath (joinpath (joinpath solution_root
            (py ''AgentFramework'')) (py ''bin'')) (py ''Debug'')) (py ''net10.0''))
            (py ''appsettings.Development.json'')])"

definition not_found_message :: "path list \<Rightarrow> pystr" where
  "not_found_message ps =
     py ''appsettings.Development.json not found. Expected one of:'' @ [10] @
     py_join [10] (map (\<lambda>p. py ''- '' @ path_str p) ps)"

text \<open>
  \<open>next((p for p in candidates if p.exists()), None)\<close>: the candidates are checked one
  after the other until one exists; a check that raises ends the search.
\<close>

fun first_existing :: "filesystem \<Rightarrow> path list \<Rightarrow> error + path option" where
  "first_existing fs [] = Inr None"
| "first_existing fs (p # ps) =
     (case path_exists fs p of
        Inl e \<Rightarrow> Inl e
      | Inr found \<Rightarrow> (if found then Inr (Some p) else first_existing fs ps))"

text \<open>\<open>base.exists()\<close> is called first (line 24), then the candidates are searched.\<close>

definition resolve_appsettings_paths :: "filesystem \<Rightarrow> path \<Rightarrow> error + (path option \<times> path)" where
  "resolve_appsettings_paths fs here =
     and_then (path_exists fs (base here)) (\<lambda>base_exists.
     (let base_path = (if base_exists then Some (base here) else None)
      in and_then (first_existing fs (candidates here)) (\<lambda>dev.
           case dev of
             None \<Rightarrow> Inl (FileNotFoundError (not_found_message (candidates here)))
           | Some dev_path \<Rightarrow> Inr (base_path, dev_path))))"

section \<open>main.py\<close>

text \<open>
  The function under the \<open>@ai_function\<close> decorator. What is registered with the agent is
  the object the decorator makes of it, which belongs to the chat client library.
\<close>

definition get_weather :: "pystr \<Rightarrow> pystr" where
  "get_weather location =
     py ''The weather in '' @ location @ py '' is cloudy with a high of 15'' @ [176] @ py ''C.''"

subsection \<open>Loading, merging and validating the configuration\<close>

text \<open>Lines 21 to 27 of \<open>main\<close>: \<open>config\<close> after both \<open>|=\<close>.\<close>

definition main_config :: "filesystem \<Rightarrow> path \<Rightarrow> error + pydict" where
  "main_config fs here =
     and_then (resolve_appsettings_paths fs here) (\<lambda>(base_path, dev_path).
     and_then (case base_path of
                 None \<Rightarrow> Inr []
               | Some bp \<Rightarrow> and_then (load_json fs bp) (\<lambda>b. Inr (dict_ior [] b))) (\<lambda>config.
     and_then (load_json fs dev_path) (\<lambda>d. Inr (dict_ior config d))))"

text \<open>Lines 21 to 31: \<open>(model_name, endpoint, api_key)\<close>.\<close>

definition main_settings :: "filesystem \<Rightarrow> path \<Rightarrow> error + (pystr \<times> pystr \<times> pystr)" where
  "main_settings fs here =
     and_then (main_config fs here) (\<lambda>config.
     and_then (require_str config (py ''ModelName'')) (\<lambda>model_name.
     and_then (require_str config (py ''Endpoint'')) (\<lambda>endpoint.
     and_then (require_str config (py ''ApiKey'')) (\<lambda>api_key.
       Inr (model_name, endpoint, api_key)))))"

subsection \<open>The chat client, the terminal and the interactive loop\<close>

text \<open>
  The chat client library is outside the repository. Each of its calls may raise; the
  reply to \<open>run_stream\<close> is the finite list of updates it yields (each with its \<open>text\<close>,
  which may be \<open>None\<close>) and the exception that ends the stream, if any. The reply may depend
  on the conversation thread, modelled by the texts already submitted on it. A stream
  that never ends is not modelled.
\<close>

record collaborator =
  chat_client :: "pystr \<Rightarrow> pystr \<Rightarrow> pystr \<Rightarrow> error option"
  create_agent :: "error option"
  get_new_thread :: "error option"
  run_stream :: "pystr list \<Rightarrow> pystr \<Rightarrow> pystr option list \<times> error option"

text \<open>
  What the process does, in order: text written to standard output, a call of
  \<open>input(prompt)\<close>, and the calls into the chat client library (\<open>NewClient\<close> with
  \<open>endpoint\<close>, \<open>deployment_name\<close> and \<open>api_key\<close>; \<open>CreateAgent\<close> with \<open>instructions\<close>, the
  names of the tools and \<open>name\<close>).
\<close>

datatype event =
    Print pystr
  | Input pystr
  | NewClient pystr pystr pystr
  | CreateAgent pystr "pystr list" pystr
  | GetNewThread
  | RunStream pystr

datatype outcome = Returned | Raised error

definition after :: "event list \<Rightarrow> event list \<times> 'a \<Rightarrow> event list \<times> 'a" where
  "after pre r = (pre @ fst r, snd r)"

definition printed :: "pystr option list \<Rightarrow> event list" where
  "printed updates =
     concat (map (\<lambda>u. case u of None \<Rightarrow> [] | Some t \<Rightarrow> (if t = [] then [] else [Print t])) updates)"

text \<open>
  The script runs \<open>asyncio.run(main())\<close>. From Python 3.11 on, \<open>asyncio.run\<close> replaces the
  default SIGINT handler by its own for the time \<open>main\<close> runs: it counts the interrupt; the
  first one cancels the task that runs \<open>main\<close> and returns, so the code that was
  interrupted goes on; every later one raises \<open>KeyboardInterrupt\<close> there. \<open>on_sigints\<close>
  takes the interrupt count and the number of SIGINTs that arrive, and says whether
  \<open>KeyboardInterrupt\<close> is raised, with the new count. Before Python 3.11 there is no such
  handler; the model is of 3.11 and later.
\<close>

fun on_sigints :: "nat \<Rightarrow> nat \<Rightarrow> bool \<times> nat" where
  "on_sigints interrupt_count 0 = (False, interrupt_count)"
| "on_sigints interrupt_count (Suc k) =
     (if interrupt_count + 1 = 1 then on_sigints (interrupt_count + 1) k
      else (True, interrupt_count + 1))"

text \<open>
  Standard input is the list of what happens at each \<open>input\<close> call: the number of SIGINTs
  that arrive while it waits, and what it gives when it is let finish, a line (without
  its newline) or an exception. Reading past the end of the list is end-of-input. SIGINTs
  at other moments are not modelled.
\<close>

type_synonym reading = "nat \<times> (error + pystr)"

definition input_call :: "nat \<Rightarrow> reading \<Rightarrow> (error + pystr) \<times> nat" where
  "input_call interrupt_count rd =
     (case on_sigints interrupt_count (fst rd) of
        (raised, n) \<Rightarrow> (if raised then Inl KeyboardInterrupt else snd rd, n))"

text \<open>
  The \<open>while True\<close> loop, with the interrupt count so far; the result has the count at the
  end. The loop runs once for each reading until it leaves. A cancellation requested by
  the SIGINT handler is delivered where the task next waits for the event loop: the
  stream is started and \<open>CancelledError\<close> is thrown at its first wait, before any update
  (the chat client waits for the service before it yields anything).
\<close>

fun main_loop ::
  "(pystr list \<Rightarrow> pystr \<Rightarrow> pystr option list \<times> error option) \<Rightarrow> nat \<Rightarrow> pystr list \<Rightarrow>
   reading list \<Rightarrow> event list \<times> outcome \<times> nat" where
  "main_loop rs interrupt_count thread [] =
     ([Input (py ''user> ''), Print [10]], Returned, interrupt_count)"
| "main_loop rs interrupt_count thread (rd # rest) =
     (let got = input_call interrupt_count rd; n = snd got in
      case fst got of
        Inl e \<Rightarrow>
          (if e = EOFError \<or> e = KeyboardInterrupt
           then ([Input (py ''user> ''), Print [10]], Returned, n)
           else ([Input (py ''user> '')], Raised e, n))
      | Inr line \<Rightarrow>
          (let user_input = py_strip line in
           if user_input = [] then after [Input (py ''user> '')] (main_loop rs n thread rest)
           else if 0 < n
           then ([Input (py ''user> ''), Print (py ''agent> ''), RunStream user_input],
                 Raised CancelledError, n)
           else
             (let reply = rs thread user_input;
                  shown = [Input (py ''user> ''), Print (py ''agent> ''), RunStream user_input] @
                          printed (fst reply)
              in case snd reply of
                   Some e \<Rightarrow> (shown, Raised e, n)
                 | None \<Rightarrow> after (shown @ [Print [10]])
                            (main_loop rs n (thread @ [user_input]) rest))))"

text \<open>\<open>main\<close>: what it does, how it ends, and the interrupt count at that moment.\<close>

definition main ::
  "filesystem \<Rightarrow> path \<Rightarrow> collaborator \<Rightarrow> reading list \<Rightarrow> event list \<times> outcome \<times> nat" where
  "main fs here lib stdin =
     (let banner = Print (py ''=== Running: AgentFrameworkPython ==='' @ [10]) in
      case main_settings fs here of
        Inl e \<Rightarrow> ([banner], Raised e, 0)
      | Inr (model_name, endpoint, api_key) \<Rightarrow>
          (let e1 = [banner, NewClient endpoint model_name api_key] in
           case chat_client lib endpoint model_name api_key of
             Some e \<Rightarrow> (e1, Raised e, 0)
           | None \<Rightarrow>
               (let e2 = e1 @ [CreateAgent
                          (py ''say '' @ [39] @ py ''just a second'' @ [39] @
                           py '' before answering question'')
                          [py ''get_weather''] (py ''myagent'')] in
                case create_agent lib of
                  Some e \<Rightarrow> (e2, Raised e, 0)
                | None \<Rightarrow>
                    (let e3 = e2 @ [GetNewThread] in
                     case get_new_thread lib of
                       Some e \<Rightarrow> (e3, Raised e, 0)
                     | None \<Rightarrow> after e3 (main_loop (run_stream lib) 0 [] stdin)))))"

text \<open>
  \<open>asyncio.run(main())\<close>, lines 64 and 65. When \<open>main\<close> returns while a cancellation is still
  requested, the task ends cancelled; \<open>asyncio.run\<close> turns the cancellation of an
  interrupted run into \<open>KeyboardInterrupt\<close>. Any other exception of \<open>main\<close> is raised as it
  is.
\<close>

definition asyncio_run :: "event list \<times> outcome \<times> nat \<Rightarrow> event list \<times> outcome" where
  "asyncio_run r =
     (case r of
        (tr, Returned, interrupt_count) \<Rightarrow>
          (tr, if 0 < interrupt_count then Raised KeyboardInterrupt else Returned)
      | (tr, Raised e, interrupt_count) \<Rightarrow>
          (tr, if e = CancelledError \<and> 0 < interrupt_count then Raised KeyboardInterrupt
               else Raised e))"

definition script ::
  "filesystem \<Rightarrow> path \<Rightarrow> collaborator \<Rightarrow> reading list \<Rightarrow> event list \<times> outcome" where
  "script fs here lib stdin = asyncio_run (main fs here lib stdin)"

text \<open>
  The status of the process: 0 when the script ends normally, non-zero when an exception
  is not caught: 1, or for \<open>KeyboardInterrupt\<close> the death by SIGINT that a shell reports as
  130.
\<close>

definition exit_code :: "outcome \<Rightarrow> int" where
  "exit_code out =
     (case out of
        Returned \<Rightarrow> 0
      | Raised e \<Rightarrow> (if e = KeyboardInterrupt then 130 else 1))"

subsection \<open>The configuration as the specification words it\<close>

text \<open>
  Overlaying \<open>dev\<close> on \<open>base\<close>, key by key: the development value where the development
  document has the key, the base value elsewhere.
\<close>

definition shallow_override :: "(pystr \<Rightarrow> json option) \<Rightarrow> (pystr \<Rightarrow> json option) \<Rightarrow> pystr \<Rightarrow> json option" where
  "shallow_override base_map dev_map k =
     (case dev_map k of Some v \<Rightarrow> Some v | None \<Rightarrow> base_map k)"

text \<open>
  A required key is violated when it is absent, when its value is not a string, or when
  the string has no character that is not whitespace.
\<close>

definition violated :: "pydict \<Rightarrow> pystr \<Rightarrow> bool" where
  "violated config key =
     (case map_of config key of
        None \<Rightarrow> True
      | Some (JStr s) \<Rightarrow> list_all py_isspace s
      | Some _ \<Rightarrow> True)"

definition required_keys :: "pystr list" where
  "required_keys = [py ''ModelName'', py ''Endpoint'', py ''ApiKey'']"

text \<open>The texts submitted to \<open>run_stream\<close>, in order.\<close>

definition submitted :: "event list \<Rightarrow> pystr list" where
  "submitted tr = concat (map (\<lambda>ev. case ev of RunStream t \<Rightarrow> [t] | _ \<Rightarrow> []) tr)"

subsection \<open>Example inputs\<close>

definition ex_here :: path where
  "ex_here = [py ''repo'', py ''AgentFrameworkPython'']"

definition ex_base_doc :: pydict where
  "ex_base_doc = [(py ''A'', JInt 1), (py ''B'', JInt 2)]"

definition ex_dev_doc :: pydict where
  "ex_dev_doc = [(py ''B'', JInt 3), (py ''C'', JInt 4)]"

definition ex_fs_both :: filesystem where
  "ex_fs_both =
     (\<lambda>p. Missing)
       ([py ''repo'', py ''AgentFramework'', py ''appsettings.json''] :=
          Found (Document ex_base_doc),
        [py ''repo'', py ''AgentFramework'', py ''appsettings.Development.json''] :=
          Found (Document ex_dev_doc))"

definition ex_blank_doc :: pydict where
  "ex_blank_doc =
     [(py ''ModelName'', JStr (py ''  '')), (py ''Endpoint'', JStr (py ''e'')),
      (py ''ApiKey'', JStr (py ''k''))]"

definition ex_valid_doc :: pydict where
  "ex_valid_doc =
     [(py ''ModelName'', JStr (py '' gpt-4o '')), (py ''Endpoint'', JStr (py ''https://e'')),
      (py ''Verbose'', JBool True), (py ''ApiKey'', JStr (py ''k''))]"

definition ex_fs_dev :: "pydict \<Rightarrow> filesystem" where
  "ex_fs_dev doc =
     (\<lambda>p. Missing)
       ([py ''repo'', py ''AgentFrameworkPython'', py ''appsettings.Development.json''] :=
          Found (Document doc))"






definition ex_lib :: collaborator where
  "ex_lib =
     \<lparr>chat_client = (\<lambda>endpoint model_name api_key. None), create_agent = None,
      get_new_thread = None,
      run_stream = (\<lambda>thread t. ([Some (py ''just a second''), None, Some [], Some t], None))\<rparr>"

section \<open>Properties\<close>

subsection \<open>Strings and dictionaries\<close>

lemma py_strip_empty_iff: "py_strip s = [] \<longleftrightarrow> (\<forall>c\<in>set s. py_isspace c)"
proof
  assume "py_strip s = []"
  then have "dropWhile py_isspace (rev (dropWhile py_isspace s)) = []"
    by (simp add: py_strip_def py_rstrip_def py_lstrip_def)
  then have "\<forall>c\<in>set (rev (dropWhile py_isspace s)). py_isspace c"
    by (simp only: dropWhile_eq_Nil_conv)
  then have "\<forall>c\<in>set (dropWhile py_isspace s). py_isspace c"
    by simp
  then have "dropWhile py_isspace s = []"
    by (metis hd_dropWhile hd_in_set)
  then show "\<forall>c\<in>set s. py_isspace c"
    by (simp only: dropWhile_eq_Nil_conv)
next
  assume "\<forall>c\<in>set s. py_isspace c"
  then have h: "dropWhile py_isspace s = []"
    by (simp only: dropWhile_eq_Nil_conv)
  show "py_strip s = []"
    unfolding py_strip_def py_rstrip_def py_lstrip_def h by simp
qed

lemma py_strip_decompose:
  "\<exists>pre suf. s = pre @ py_strip s @ suf \<and> list_all py_isspace pre \<and> list_all py_isspace suf"
proof -
  define t where "t = dropWhile py_isspace s"
  have s: "s = takeWhile py_isspace s @ t"
    by (simp add: t_def)
  have "rev (takeWhile py_isspace (rev t) @ dropWhile py_isspace (rev t)) =
        rev (dropWhile py_isspace (rev t)) @ rev (takeWhile py_isspace (rev t))"
    by (rule rev_append)
  then have "t = rev (dropWhile py_isspace (rev t)) @ rev (takeWhile py_isspace (rev t))"
    by (simp only: takeWhile_dropWhile_id rev_rev_ident)
  then have t: "t = py_strip s @ rev (takeWhile py_isspace (rev t))"
    by (simp only: py_strip_def py_rstrip_def py_lstrip_def t_def)
  have "s = takeWhile py_isspace s @ py_strip s @ rev (takeWhile py_isspace (rev t))"
    using s t by simp
  moreover have "list_all py_isspace (takeWhile py_isspace s)"
    by (simp add: list_all_iff) (metis set_takeWhileD)
  moreover have "list_all py_isspace (rev (takeWhile py_isspace (rev t)))"
    by (simp add: list_all_iff) (metis set_takeWhileD)
  ultimately show ?thesis by blast
qed

lemma py_strip_ends:
  assumes "py_strip s \<noteq> []"
  shows "\<not> py_isspace (hd (py_strip s))" and "\<not> py_isspace (last (py_strip s))"
proof -
  define t where "t = dropWhile py_isspace s"
  have st: "py_strip s = rev (dropWhile py_isspace (rev t))"
    by (simp add: py_strip_def py_rstrip_def py_lstrip_def t_def)
  with assms have ne: "dropWhile py_isspace (rev t) \<noteq> []" by simp
  then have tne: "t \<noteq> []" by auto
  have "last (py_strip s) = hd (dropWhile py_isspace (rev t))"
    using ne by (simp add: st last_rev)
  then show "\<not> py_isspace (last (py_strip s))"
    using ne by (simp add: hd_dropWhile)
  have "hd (py_strip s) = last (dropWhile py_isspace (rev t))"
    using ne by (simp add: st hd_rev)
  also have "\<dots> = last (rev t)"
    using ne by (metis last_appendR takeWhile_dropWhile_id)
  also have "\<dots> = hd t"
    using tne by (simp add: last_rev)
  finally show "\<not> py_isspace (hd (py_strip s))"
    using tne by (simp add: t_def hd_dropWhile)
qed

lemma keys_simps [simp]: "keys [] = []" "keys ((k, v) # d) = k # keys d"
  by (simp_all add: keys_def)

lemma map_of_dict_setitem: "map_of (dict_setitem d k v) = (map_of d)(k \<mapsto> v)"
  by (induction d k v rule: dict_setitem.induct) auto

lemma keys_dict_setitem: "set (keys (dict_setitem d k v)) = insert k (set (keys d))"
  by (induction d k v rule: dict_setitem.induct) auto

lemma is_dict_setitem: "is_dict d \<Longrightarrow> is_dict (dict_setitem d k v)"
proof (induction d k v rule: dict_setitem.induct)
  case (1 k v)
  then show ?case by (simp add: is_dict_def)
next
  case (2 k' v' d k v)
  have "set (keys (dict_setitem d k v)) = insert k (set (keys d))"
    by (rule keys_dict_setitem)
  with 2 show ?case by (auto simp: is_dict_def)
qed

lemma map_upd_add_fresh: "k \<notin> dom n \<Longrightarrow> m(k \<mapsto> v) ++ n = (m ++ n)(k \<mapsto> v)"
  by (auto simp: map_add_def fun_eq_iff split: option.splits)

lemma map_of_dict_ior:
  "is_dict other \<Longrightarrow> map_of (dict_ior d other) = map_of d ++ map_of other"
proof (induction d other rule: dict_ior.induct)
  case (1 d)
  then show ?case by simp
next
  case (2 d k v other)
  from 2(2) have fresh: "k \<notin> dom (map_of other)" and rest: "is_dict other"
    by (auto simp: is_dict_def keys_def dom_map_of_conv_image_fst)
  have "map_of (dict_ior d ((k, v) # other)) = map_of (dict_setitem d k v) ++ map_of other"
    using 2(1)[OF rest] by simp
  also have "\<dots> = (map_of d)(k \<mapsto> v) ++ map_of other"
    by (simp only: map_of_dict_setitem)
  also have "\<dots> = (map_of d ++ map_of other)(k \<mapsto> v)"
    using fresh by (rule map_upd_add_fresh)
  also have "\<dots> = map_of d ++ map_of ((k, v) # other)"
    by simp
  finally show ?case .
qed

lemma keys_dict_ior: "set (keys (dict_ior d other)) = set (keys d) \<union> set (keys other)"
  by (induction d other rule: dict_ior.induct) (simp_all add: keys_dict_setitem)

lemma is_dict_ior: "is_dict d \<Longrightarrow> is_dict (dict_ior d other)"
  by (induction d other rule: dict_ior.induct) (auto simp: is_dict_setitem)

lemma and_then_simps [simp]:
  "and_then (Inl e) f = Inl e" "and_then (Inr x) f = f x"
  by (simp_all add: and_then_def)

lemma load_json_Document: "fs p = Found (Document d) \<Longrightarrow> load_json fs p = Inr d"
  by (simp add: load_json_def)

lemma dict_ior_Nil_map_of: "is_dict d \<Longrightarrow> map_of (dict_ior [] d) = map_of d"
  by (simp add: map_of_dict_ior)

lemma shallow_override_map_add: "shallow_override m n = m ++ n"
  by (auto simp: shallow_override_def map_add_def fun_eq_iff split: option.splits)

subsection \<open>Validation, case by case\<close>


lemma violated_iff_strip:
  "violated config key \<longleftrightarrow>
     (case dict_get config key of JStr s \<Rightarrow> py_strip s = [] | _ \<Rightarrow> True)"
  by (auto simp: violated_def dict_get_def py_strip_empty_iff list_all_iff
      split: option.splits json.splits)

lemma require_str_violated:
  "violated config key \<Longrightarrow>
   require_str config key =
     Inl (ValueError (key @ py '' not found in appsettings.Development.json''))"
  by (cases "dict_get config key") (simp_all add: violated_iff_strip require_str_def)

lemma require_str_valid:
  "\<not> violated config key \<Longrightarrow>
   \<exists>s. map_of config key = Some (JStr s) \<and> require_str config key = Inr s"
  by (auto simp: violated_def require_str_def dict_get_def py_strip_empty_iff list_all_iff
      split: option.splits json.splits)

lemma main_settings_cases:
  assumes c: "main_config fs here = Inr config"
  shows "(\<exists>k\<in>set required_keys. violated config k \<and>
            main_settings fs here =
              Inl (ValueError (k @ py '' not found in appsettings.Development.json''))) \<or>
         ((\<forall>k\<in>set required_keys. \<not> violated config k) \<and>
          (\<exists>m e a. main_settings fs here = Inr (m, e, a) \<and>
             map_of config (py ''ModelName'') = Some (JStr m) \<and>
             map_of config (py ''Endpoint'') = Some (JStr e) \<and>
             map_of config (py ''ApiKey'') = Some (JStr a)))"
proof (cases "violated config (py ''ModelName'')")
  case True
  then have "main_settings fs here =
      Inl (ValueError (py ''ModelName'' @ py '' not found in appsettings.Development.json''))"
    by (simp add: main_settings_def c require_str_violated)
  with True show ?thesis by (auto simp: required_keys_def)
next
  case vm: False
  then obtain m where m: "map_of config (py ''ModelName'') = Some (JStr m)"
      "require_str config (py ''ModelName'') = Inr m"
    using require_str_valid by blast
  show ?thesis
  proof (cases "violated config (py ''Endpoint'')")
    case True
    then have "main_settings fs here =
        Inl (ValueError (py ''Endpoint'' @ py '' not found in appsettings.Development.json''))"
      by (simp add: main_settings_def c m require_str_violated)
    with True show ?thesis by (auto simp: required_keys_def)
  next
    case ve: False
    then obtain e where e: "map_of config (py ''Endpoint'') = Some (JStr e)"
        "require_str config (py ''Endpoint'') = Inr e"
      using require_str_valid by blast
    show ?thesis
    proof (cases "violated config (py ''ApiKey'')")
      case True
      then have "main_settings fs here =
          Inl (ValueError (py ''ApiKey'' @ py '' not found in appsettings.Development.json''))"
        by (simp add: main_settings_def c m e require_str_violated)
      with True show ?thesis by (auto simp: required_keys_def)
    next
      case va: False
      then obtain a where a: "map_of config (py ''ApiKey'') = Some (JStr a)"
          "require_str config (py ''ApiKey'') = Inr a"
        using require_str_valid by blast
      have "main_settings fs here = Inr (m, e, a)"
        by (simp add: main_settings_def c m e a)
      moreover have "\<forall>k\<in>set required_keys. \<not> violated config k"
        using vm ve va by (simp add: required_keys_def)
      ultimately show ?thesis using m(1) e(1) a(1) by blast
    qed
  qed
qed

subsection \<open>Resolving the paths\<close>

lemma candidates_expand:
  "candidates here =
     [here @ [py ''appsettings.Development.json''],
      parent here @ [py ''AgentFramework'', py ''appsettings.Development.json''],
      parent here @ [py ''AgentFramework'', py ''bin'', py ''Debug'', py ''net10.0'',
                     py ''appsettings.Development.json'']]"
  by (simp add: candidates_def joinpath_def Let_def)








lemma resolve_candidate_error:
  "path_exists fs (base here) = Inr found \<Longrightarrow> first_existing fs (candidates here) = Inl e \<Longrightarrow>
   resolve_appsettings_paths fs here = Inl e"
  by (simp add: resolve_appsettings_paths_def)


lemma base_expand: "base here = parent here @ [py ''AgentFramework'', py ''appsettings.json'']"
  by (simp add: base_def joinpath_def Let_def)





subsection \<open>Example inputs evaluated\<close>

lemma ex_candidates:
  "candidates ex_here =
     [[py ''repo'', py ''AgentFrameworkPython'', py ''appsettings.Development.json''],
      [py ''repo'', py ''AgentFramework'', py ''appsettings.Development.json''],
      [py ''repo'', py ''AgentFramework'', py ''bin'', py ''Debug'', py ''net10.0'',
       py ''appsettings.Development.json'']]"
  by (simp add: candidates_expand parent_def ex_here_def)

lemma ex_base: "base ex_here = [py ''repo'', py ''AgentFramework'', py ''appsettings.json'']"
  by (simp add: base_expand parent_def ex_here_def)

lemma ex_both_resolve:
  "resolve_appsettings_paths ex_fs_both ex_here =
     Inr (Some [py ''repo'', py ''AgentFramework'', py ''appsettings.json''],
          [py ''repo'', py ''AgentFramework'', py ''appsettings.Development.json''])"
  by (simp add: resolve_appsettings_paths_def ex_candidates ex_base path_exists_def
      ex_fs_both_def py_def)

lemma ex_both_config: "main_config ex_fs_both ex_here =
    Inr [(py ''A'', JInt 1), (py ''B'', JInt 3), (py ''C'', JInt 4)]"
  by (simp add: main_config_def ex_both_resolve load_json_def)
   (simp add: ex_fs_both_def ex_base_doc_def ex_dev_doc_def py_def)

lemma ex_dev_resolve:
  "resolve_appsettings_paths (ex_fs_dev doc) ex_here =
     Inr (None, [py ''repo'', py ''AgentFrameworkPython'', py ''appsettings.Development.json''])"
  by (simp add: resolve_appsettings_paths_def ex_candidates ex_base path_exists_def
      ex_fs_dev_def py_def)

lemma ex_dev_config: "main_config (ex_fs_dev doc) ex_here = Inr (dict_ior [] doc)"
  by (simp add: main_config_def ex_dev_resolve load_json_def) (simp add: ex_fs_dev_def)

lemma ex_blank_config: "main_config (ex_fs_dev ex_blank_doc) ex_here = Inr ex_blank_doc"
  by (simp add: ex_dev_config) (simp add: ex_blank_doc_def py_def)

lemma ex_blank_violated: "violated ex_blank_doc (py ''ModelName'')"
  by (simp add: violated_def ex_blank_doc_def py_def py_isspace_def)

lemma ex_blank_settings:
  "main_settings (ex_fs_dev ex_blank_doc) ex_here =
     Inl (ValueError (py ''ModelName not found in appsettings.Development.json''))"
  by (simp add: main_settings_def ex_blank_config require_str_violated ex_blank_violated)
     (simp add: py_def)







subsection \<open>A development file alone\<close>

lemma require_str_Some:
  assumes "map_of config key = Some (JStr s)" and "\<exists>c\<in>set s. \<not> py_isspace c"
  shows "require_str config key = Inr s"
  using assms by (simp add: require_str_def dict_get_def py_strip_empty_iff)

lemma main_config_dev_only:
  assumes "resolve_appsettings_paths fs here = Inr (None, dp)"
    and "fs dp = Found (Document doc)"
  shows "main_config fs here = Inr (dict_ior [] doc)"
  using assms by (simp add: main_config_def load_json_Document)

lemma main_starts_with_client:
  assumes "main_settings fs here = Inr (m, e, a)"
  shows "\<exists>tr. fst (main fs here lib stdin) =
           Print (py ''=== Running: AgentFrameworkPython ==='' @ [10]) # NewClient e m a # tr"
  using assms by (simp add: main_def Let_def after_def split: option.splits)

lemma ex_valid_lookups:
  "is_dict ex_valid_doc"
  "map_of ex_valid_doc (py ''ModelName'') = Some (JStr (py '' gpt-4o ''))"
  "map_of ex_valid_doc (py ''Endpoint'') = Some (JStr (py ''https://e''))"
  "map_of ex_valid_doc (py ''ApiKey'') = Some (JStr (py ''k''))"
  by (simp_all add: ex_valid_doc_def is_dict_def py_def)

lemma ex_nonblank:
  "\<exists>c\<in>set (py '' gpt-4o ''). \<not> py_isspace c"
  "\<exists>c\<in>set (py ''https://e''). \<not> py_isspace c"
  "\<exists>c\<in>set (py ''k''). \<not> py_isspace c"
  by (simp_all add: py_def py_isspace_def)

subsection \<open>The interactive loop, step by step\<close>

lemma submitted_simps [simp]:
  "submitted [] = []"
  "submitted (Print t # tr) = submitted tr"
  "submitted (Input t # tr) = submitted tr"
  "submitted (RunStream t # tr) = t # submitted tr"
  "submitted (a @ b) = submitted a @ submitted b"
  by (simp_all add: submitted_def)

lemma printed_simps [simp]:
  "printed [] = []"
  "printed (None # us) = printed us"
  "printed (Some t # us) = (if t = [] then printed us else Print t # printed us)"
  by (simp_all add: printed_def)

lemma submitted_printed [simp]: "submitted (printed us) = []"
proof (induction us)
  case Nil
  show ?case by simp
next
  case (Cons u us)
  then show ?case by (cases u) simp_all
qed

lemma fst_after [simp]: "fst (after pre r) = pre @ fst r"
  and snd_after [simp]: "snd (after pre r) = snd r"
  by (simp_all add: after_def)

lemma input_call_quiet: "input_call n (0, r) = (r, n)"
  by (simp add: input_call_def)

lemma input_call_first_sigint: "input_call 0 (Suc 0, r) = (r, Suc 0)"
  by (simp add: input_call_def)

lemma input_call_later_sigint: "0 < n \<Longrightarrow> input_call n (Suc k, r) = (Inl KeyboardInterrupt, Suc n)"
  by (simp add: input_call_def)

lemma input_call_two_sigints: "input_call 0 (Suc (Suc k), r) = (Inl KeyboardInterrupt, Suc (Suc 0))"
  by (simp add: input_call_def)

lemma main_loop_leaves:
  "input_call n rd = (Inl e, n') \<Longrightarrow> e = EOFError \<or> e = KeyboardInterrupt \<Longrightarrow>
   main_loop rs n thread (rd # rest) = ([Input (py ''user> ''), Print [10]], Returned, n')"
  by (auto simp: Let_def)

lemma main_loop_raises:
  "input_call n rd = (Inl e, n') \<Longrightarrow> e \<noteq> EOFError \<Longrightarrow> e \<noteq> KeyboardInterrupt \<Longrightarrow>
   main_loop rs n thread (rd # rest) = ([Input (py ''user> '')], Raised e, n')"
  by (simp add: Let_def)

lemma main_loop_blank:
  "input_call n rd = (Inr line, n') \<Longrightarrow> py_strip line = [] \<Longrightarrow>
   main_loop rs n thread (rd # rest) = after [Input (py ''user> '')] (main_loop rs n' thread rest)"
  by (simp add: Let_def)

lemma main_loop_cancelled:
  "input_call n rd = (Inr line, n') \<Longrightarrow> py_strip line \<noteq> [] \<Longrightarrow> 0 < n' \<Longrightarrow>
   main_loop rs n thread (rd # rest) =
     ([Input (py ''user> ''), Print (py ''agent> ''), RunStream (py_strip line)],
      Raised CancelledError, n')"
  by (simp add: Let_def)

lemma main_loop_nonblank:
  "input_call n rd = (Inr line, 0) \<Longrightarrow> py_strip line \<noteq> [] \<Longrightarrow>
   main_loop rs n thread (rd # rest) =
     (case snd (rs thread (py_strip line)) of
        Some e \<Rightarrow>
          ([Input (py ''user> ''), Print (py ''agent> ''), RunStream (py_strip line)] @
           printed (fst (rs thread (py_strip line))), Raised e, 0)
      | None \<Rightarrow>
          after ([Input (py ''user> ''), Print (py ''agent> ''), RunStream (py_strip line)] @
                 printed (fst (rs thread (py_strip line))) @ [Print [10]])
            (main_loop rs 0 (thread @ [py_strip line]) rest))"
  by (simp add: Let_def split: option.splits)

lemma main_loop_nonblank_starts:
  assumes "input_call n rd = (Inr line, n')" and "py_strip line \<noteq> []"
  shows "\<exists>tr. fst (main_loop rs n thread (rd # rest)) =
           Input (py ''user> '') # Print (py ''agent> '') # RunStream (py_strip line) # tr"
proof (cases "0 < n'")
  case True
  with assms show ?thesis
    by (simp add: main_loop_cancelled del: main_loop.simps)
next
  case False
  with assms have "input_call n rd = (Inr line, 0)"
    by simp
  from main_loop_nonblank [OF this assms(2)] show ?thesis
    by (simp del: main_loop.simps split: option.splits)
qed

lemma main_loop_prompts_first:
  "\<exists>tr. fst (main_loop rs n thread stdin) = Input (py ''user> '') # tr"
proof (cases stdin)
  case Nil
  then show ?thesis by simp
next
  case (Cons rd rest)
  obtain r n' where got: "input_call n rd = (r, n')"
    by (cases "input_call n rd") blast
  show ?thesis
  proof (cases r)
    case (Inl e)
    show ?thesis
    proof (cases "e = EOFError \<or> e = KeyboardInterrupt")
      case True
      from main_loop_leaves [OF got [unfolded Inl] True] show ?thesis
        unfolding Cons by (simp del: main_loop.simps)
    next
      case False
      then have "e \<noteq> EOFError" "e \<noteq> KeyboardInterrupt" by simp_all
      from main_loop_raises [OF got [unfolded Inl] this] show ?thesis
        unfolding Cons by (simp del: main_loop.simps)
    qed
  next
    case (Inr line)
    show ?thesis
    proof (cases "py_strip line = []")
      case True
      from main_loop_blank [OF got [unfolded Inr] True] show ?thesis
        unfolding Cons by (simp del: main_loop.simps)
    next
      case False
      from main_loop_nonblank_starts [OF got [unfolded Inr] False] show ?thesis
        unfolding Cons by blast
    qed
  qed
qed

lemma input_call_line:
  "input_call n rd = (Inr line, n') \<Longrightarrow> snd rd = Inr line"
  by (cases "on_sigints n (fst rd)") (auto simp: input_call_def split: if_splits)

lemma submitted_are_stripped_lines:
  "t \<in> set (submitted (fst (main_loop rs n thread stdin))) \<Longrightarrow>
   t \<noteq> [] \<and> (\<exists>rd line. rd \<in> set stdin \<and> snd rd = Inr line \<and> t = py_strip line)"
proof (induction stdin arbitrary: n thread)
  case Nil
  then show ?case by simp
next
  case (Cons rd rest)
  obtain r n' where got: "input_call n rd = (r, n')"
    by (cases "input_call n rd") blast
  show ?case
  proof (cases r)
    case (Inl e)
    show ?thesis
    proof (cases "e = EOFError \<or> e = KeyboardInterrupt")
      case True
      from Cons.prems show ?thesis
        unfolding main_loop_leaves [OF got [unfolded Inl] True] by simp
    next
      case False
      then have ne: "e \<noteq> EOFError" "e \<noteq> KeyboardInterrupt" by simp_all
      from Cons.prems show ?thesis
        unfolding main_loop_raises [OF got [unfolded Inl] ne] by simp
    qed
  next
    case (Inr line)
    note got' = got [unfolded Inr]
    have here: "rd \<in> set (rd # rest)" "snd rd = Inr line"
      using input_call_line [OF got'] by simp_all
    show ?thesis
    proof (cases "py_strip line = []")
      case True
      from Cons.prems have "t \<in> set (submitted (fst (main_loop rs n' thread rest)))"
        unfolding main_loop_blank [OF got' True] by simp
      from Cons.IH [OF this] show ?thesis by auto
    next
      case False
      show ?thesis
      proof (cases "0 < n'")
        case True
        from Cons.prems have "t = py_strip line"
          unfolding main_loop_cancelled [OF got' False True] by simp
        with False here show ?thesis by fastforce
      next
        case zero: False
        then have got0: "input_call n rd = (Inr line, 0)"
          using got' by simp
        show ?thesis
        proof (cases "snd (rs thread (py_strip line))")
          case (Some e)
          from Cons.prems have "t = py_strip line"
            unfolding main_loop_nonblank [OF got0 False] by (simp add: Some)
          with False here show ?thesis by fastforce
        next
          case None
          from Cons.prems have
            "t = py_strip line \<or>
             t \<in> set (submitted (fst (main_loop rs 0 (thread @ [py_strip line]) rest)))"
            unfolding main_loop_nonblank [OF got0 False] by (simp add: None)
          then show ?thesis
          proof
            assume "t = py_strip line"
            with False here show ?thesis by fastforce
          next
            assume "t \<in> set (submitted (fst (main_loop rs 0 (thread @ [py_strip line]) rest)))"
            from Cons.IH [OF this] show ?thesis by auto
          qed
        qed
      qed
    qed
  qed
qed

lemma main_loop_quiet_lines_then_end:
  assumes "\<forall>th t. snd (rs th t) = None" and "e = EOFError \<or> e = KeyboardInterrupt"
  shows "snd (main_loop rs 0 thread (map (\<lambda>line. (0, Inr line)) lines @ (0, Inl e) # rest)) =
           (Returned, 0) \<and>
         (\<exists>tr. fst (main_loop rs 0 thread (map (\<lambda>line. (0, Inr line)) lines @ (0, Inl e) # rest)) =
            tr @ [Input (py ''user> ''), Print [10]])"
proof (induction lines arbitrary: thread)
  case Nil
  have "main_loop rs 0 thread ((0, Inl e) # rest) =
      ([] @ [Input (py ''user> ''), Print [10]], Returned, 0)"
    using main_loop_leaves [OF input_call_quiet assms(2)] by simp
  then show ?case by (simp del: main_loop.simps)
next
  case (Cons line lines)
  let ?rest = "map (\<lambda>line. (0, Inr line)) lines @ (0, Inl e) # rest"
  have eq: "map (\<lambda>line. (0, Inr line)) (line # lines) @ (0, Inl e) # rest = (0, Inr line) # ?rest"
    by simp
  show ?case
  proof (cases "py_strip line = []")
    case True
    from Cons [of thread] obtain tr where
      s: "snd (main_loop rs 0 thread ?rest) = (Returned, 0)" and
      f: "fst (main_loop rs 0 thread ?rest) = tr @ [Input (py ''user> ''), Print [10]]"
      by blast
    have m: "main_loop rs 0 thread ((0, Inr line) # ?rest) =
        after [Input (py ''user> '')] (main_loop rs 0 thread ?rest)"
      using input_call_quiet True by (rule main_loop_blank)
    have "fst (main_loop rs 0 thread ((0, Inr line) # ?rest)) =
        (Input (py ''user> '') # tr) @ [Input (py ''user> ''), Print [10]]"
      by (simp add: m f del: main_loop.simps)
    then have "\<exists>tr. fst (main_loop rs 0 thread ((0, Inr line) # ?rest)) =
        tr @ [Input (py ''user> ''), Print [10]]"
      by (rule exI [where x = "Input (py ''user> '') # tr"])
    moreover have "snd (main_loop rs 0 thread ((0, Inr line) # ?rest)) = (Returned, 0)"
      by (simp add: m s del: main_loop.simps)
    ultimately show ?thesis
      unfolding eq by blast
  next
    case False
    let ?pre = "[Input (py ''user> ''), Print (py ''agent> ''), RunStream (py_strip line)] @
                 printed (fst (rs thread (py_strip line))) @ [Print [10]]"
    from Cons [of "thread @ [py_strip line]"] obtain tr where
      s: "snd (main_loop rs 0 (thread @ [py_strip line]) ?rest) = (Returned, 0)" and
      f: "fst (main_loop rs 0 (thread @ [py_strip line]) ?rest) =
            tr @ [Input (py ''user> ''), Print [10]]"
      by blast
    have m: "main_loop rs 0 thread ((0, Inr line) # ?rest) =
        after ?pre (main_loop rs 0 (thread @ [py_strip line]) ?rest)"
      using assms(1) by (simp add: main_loop_nonblank [OF input_call_quiet False] del: main_loop.simps)
    have "fst (main_loop rs 0 thread ((0, Inr line) # ?rest)) =
        (?pre @ tr) @ [Input (py ''user> ''), Print [10]]"
      by (simp add: m f del: main_loop.simps)
    then have "\<exists>tr. fst (main_loop rs 0 thread ((0, Inr line) # ?rest)) =
        tr @ [Input (py ''user> ''), Print [10]]"
      by (rule exI [where x = "?pre @ tr"])
    moreover have "snd (main_loop rs 0 thread ((0, Inr line) # ?rest)) = (Returned, 0)"
      by (simp add: m s del: main_loop.simps)
    ultimately show ?thesis
      unfolding eq by blast
  qed
qed

lemma main_runs_loop:
  assumes "main_settings fs here = Inr (m, ep, a)" and "chat_client lib ep m a = None"
    and "create_agent lib = None" and "get_new_thread lib = None"
  shows "snd (main fs here lib stdin) = snd (main_loop (run_stream lib) 0 [] stdin)"
  using assms by (simp add: main_def Let_def del: main_loop.simps)

lemma asyncio_run_simps:
  "asyncio_run (tr, Returned, 0) = (tr, Returned)"
  "0 < n \<Longrightarrow> asyncio_run (tr, Returned, n) = (tr, Raised KeyboardInterrupt)"
  "0 < n \<Longrightarrow> asyncio_run (tr, Raised CancelledError, n) = (tr, Raised KeyboardInterrupt)"
  "e \<noteq> CancelledError \<Longrightarrow> asyncio_run (tr, Raised e, n) = (tr, Raised e)"
  by (simp_all add: asyncio_run_def)

text \<open>
  Without an interrupt, end-of-input at the read point ends the run cleanly: after any
  lines whose streams end without an exception the loop leaves, \<open>main\<close> returns and the
  status is 0.
\<close>

lemma quiet_end_of_input_is_clean:
  assumes "main_settings fs here = Inr (m, ep, a)" and "chat_client lib ep m a = None"
    and "create_agent lib = None" and "get_new_thread lib = None"
    and "\<forall>th t. snd (run_stream lib th t) = None"
  shows "snd (script fs here lib (map (\<lambda>line. (0, Inr line)) lines @ (0, Inl EOFError) # rest)) =
           Returned \<and>
         exit_code (snd (script fs here lib
           (map (\<lambda>line. (0, Inr line)) lines @ (0, Inl EOFError) # rest))) = 0"
proof -
  let ?stdin = "map (\<lambda>line. (0, Inr line)) lines @ (0, Inl EOFError) # rest"
  have e: "EOFError = EOFError \<or> EOFError = KeyboardInterrupt"
    by simp
  have "snd (main fs here lib ?stdin) = (Returned, 0)"
    using main_runs_loop [OF assms(1-4)] main_loop_quiet_lines_then_end [OF assms(5) e]
    by simp
  then have "main fs here lib ?stdin = (fst (main fs here lib ?stdin), Returned, 0)"
    by (metis prod.collapse)
  then have "script fs here lib ?stdin = (fst (main fs here lib ?stdin), Returned)"
    unfolding script_def by (metis asyncio_run_simps(1))
  then show ?thesis
    by (simp add: exit_code_def)
qed

lemma ex_strip:
  "py_strip (py ''   '') = []"
  "py_strip (py ''  hello  world '') = py ''hello  world''"
  "py_strip (py ''hi'') = py ''hi''"
  by (simp_all add: py_strip_def py_rstrip_def py_lstrip_def py_isspace_def py_def)

lemma ex_lib_fields:
  "run_stream ex_lib thread t = ([Some (py ''just a second''), None, Some [], Some t], None)"
  "chat_client ex_lib ep m a = None" "create_agent ex_lib = None" "get_new_thread ex_lib = None"
  by (simp_all add: ex_lib_def)

lemma ex_valid_settings:
  "main_settings (ex_fs_dev ex_valid_doc) ex_here =
     Inr (py '' gpt-4o '', py ''https://e'', py ''k'')"
proof -
  have "dict_ior [] ex_valid_doc = ex_valid_doc"
    by (simp add: ex_valid_doc_def py_def)
  then have c: "main_config (ex_fs_dev ex_valid_doc) ex_here = Inr ex_valid_doc"
    by (simp add: ex_dev_config)
  show ?thesis
    by (simp add: main_settings_def c
        require_str_Some [OF ex_valid_lookups(2) ex_nonblank(1)]
        require_str_Some [OF ex_valid_lookups(3) ex_nonblank(2)]
        require_str_Some [OF ex_valid_lookups(4) ex_nonblank(3)])
qed

lemma ex_main:
  "main (ex_fs_dev ex_valid_doc) ex_here ex_lib stdin =
     after [Print (py ''=== Running: AgentFrameworkPython ==='' @ [10]),
            NewClient (py ''https://e'') (py '' gpt-4o '') (py ''k''),
            CreateAgent (py ''say '' @ [39] @ py ''just a second'' @ [39] @
                         py '' before answering question'') [py ''get_weather'']
              (py ''myagent''),
            GetNewThread]
       (main_loop (run_stream ex_lib) 0 [] stdin)"
  by (simp add: main_def ex_valid_settings ex_lib_fields Let_def del: main_loop.simps)

lemma ex_loop_sigint_then_eof:
  "main_loop (run_stream ex_lib) 0 [] [(1, Inl EOFError)] =
     ([Input (py ''user> ''), Print [10]], Returned, 1)"
  using main_loop_leaves [OF input_call_first_sigint, of EOFError "run_stream ex_lib" "[]" "[]"]
  by simp

lemma ex_loop_two_sigints:
  "main_loop (run_stream ex_lib) 0 [] [(2, Inr (py ''hi''))] =
     ([Input (py ''user> ''), Print [10]], Returned, 2)"
proof -
  have "input_call 0 (2, Inr (py ''hi'')) = (Inl KeyboardInterrupt, 2)"
    using input_call_two_sigints [of 0 "Inr (py ''hi'')"] by (simp add: numeral_2_eq_2)
  from main_loop_leaves [OF this] show ?thesis
    by simp
qed

lemma ex_loop_sigint_then_line:
  "main_loop (run_stream ex_lib) 0 [] [(1, Inr (py ''hi''))] =
     ([Input (py ''user> ''), Print (py ''agent> ''), RunStream (py ''hi'')],
      Raised CancelledError, 1)"
proof -
  have ne: "py_strip (py ''hi'') \<noteq> []"
    unfolding ex_strip by (simp add: py_def)
  have one: "(0::nat) < Suc 0"
    by simp
  from main_loop_cancelled [OF input_call_first_sigint ne one,
      of "run_stream ex_lib" "[]" "[]"]
  show ?thesis
    by (simp add: ex_strip del: main_loop.simps)
qed

lemma ex_loop_eof:
  "main_loop (run_stream ex_lib) 0 [] [(0, Inl EOFError)] =
     ([Input (py ''user> ''), Print [10]], Returned, 0)"
  using main_loop_leaves [OF input_call_quiet, of EOFError "run_stream ex_lib" 0 "[]" "[]"]
  by simp

subsection \<open>Merging the two documents\<close>

text \<open>
  C1. When both files are resolved and hold the JSON objects \<open>base_doc\<close> and \<open>dev_doc\<close>, the
  configuration \<open>main\<close> builds is the key-level override of \<open>base_doc\<close> by \<open>dev_doc\<close>: a key
  of \<open>dev_doc\<close> has the development value (whatever that value is, a nested object
  included, so nothing is merged below the top level), every other key has what
  \<open>base_doc\<close> has for it, and the keys are those of the two documents together.
\<close>

theorem main_config_shallow_override:
  assumes "resolve_appsettings_paths fs here = Inr (Some bp, dp)"
    and "fs bp = Found (Document base_doc)" and "fs dp = Found (Document dev_doc)"
    and "is_dict base_doc" and "is_dict dev_doc"
  shows "\<exists>config. main_config fs here = Inr config \<and> is_dict config \<and>
           map_of config = shallow_override (map_of base_doc) (map_of dev_doc) \<and>
           set (keys config) = set (keys base_doc) \<union> set (keys dev_doc) \<and>
           (\<forall>k v. map_of dev_doc k = Some v \<longrightarrow> map_of config k = Some v) \<and>
           (\<forall>k. k \<notin> set (keys dev_doc) \<longrightarrow> map_of config k = map_of base_doc k)"
proof -
  define config where "config = dict_ior (dict_ior [] base_doc) dev_doc"
  have run: "main_config fs here = Inr config"
    using assms(1-3) by (simp add: main_config_def load_json_Document config_def)
  have wf: "is_dict config"
    unfolding config_def by (intro is_dict_ior) (simp add: is_dict_def)
  have m: "map_of config = shallow_override (map_of base_doc) (map_of dev_doc)"
    unfolding config_def shallow_override_map_add
    by (simp add: map_of_dict_ior assms(4,5))
  have k: "set (keys config) = set (keys base_doc) \<union> set (keys dev_doc)"
    unfolding config_def by (simp add: keys_dict_ior)
  have d: "\<forall>k v. map_of dev_doc k = Some v \<longrightarrow> map_of config k = Some v"
    by (simp add: m shallow_override_def)
  have b: "\<forall>k. k \<notin> set (keys dev_doc) \<longrightarrow> map_of config k = map_of base_doc k"
  proof (intro allI impI)
    fix k assume "k \<notin> set (keys dev_doc)"
    then have "map_of dev_doc k = None"
      by (simp add: keys_def map_of_eq_None_iff)
    then show "map_of config k = map_of base_doc k"
      by (simp add: m shallow_override_def)
  qed
  from run wf m k d b show ?thesis by blast
qed

text \<open>The specification's example: \<open>{"A":1,"B":2}\<close> overlaid by \<open>{"B":3,"C":4}\<close>.\<close>

theorem main_config_shallow_override_witness:
  "resolve_appsettings_paths ex_fs_both ex_here =
     Inr (Some [py ''repo'', py ''AgentFramework'', py ''appsettings.json''],
          [py ''repo'', py ''AgentFramework'', py ''appsettings.Development.json'']) \<and>
   ex_fs_both [py ''repo'', py ''AgentFramework'', py ''appsettings.json''] =
     Found (Document ex_base_doc) \<and>
   ex_fs_both [py ''repo'', py ''AgentFramework'', py ''appsettings.Development.json''] =
     Found (Document ex_dev_doc) \<and>
   is_dict ex_base_doc \<and> is_dict ex_dev_doc \<and>
   (\<exists>config. main_config ex_fs_both ex_here = Inr config \<and>
      map_of config = shallow_override (map_of ex_base_doc) (map_of ex_dev_doc)) \<and>
   main_config ex_fs_both ex_here =
     Inr [(py ''A'', JInt 1), (py ''B'', JInt 3), (py ''C'', JInt 4)]"
proof -
  have b: "ex_fs_both [py ''repo'', py ''AgentFramework'', py ''appsettings.json''] =
      Found (Document ex_base_doc)"
    by (simp add: ex_fs_both_def py_def)
  have d: "ex_fs_both [py ''repo'', py ''AgentFramework'', py ''appsettings.Development.json''] =
      Found (Document ex_dev_doc)"
    by (simp add: ex_fs_both_def py_def)
  have wb: "is_dict ex_base_doc" and wd: "is_dict ex_dev_doc"
    by (simp_all add: is_dict_def ex_base_doc_def ex_dev_doc_def py_def)
  from main_config_shallow_override [OF ex_both_resolve b d wb wd]
  have "\<exists>config. main_config ex_fs_both ex_here = Inr config \<and>
      map_of config = shallow_override (map_of ex_base_doc) (map_of ex_dev_doc)"
    by blast
  with ex_both_resolve b d wb wd ex_both_config show ?thesis by blast
qed

text \<open>A nested object is replaced as a whole.\<close>

lemma nested_object_replaced:
  "dict_ior (dict_ior [] [(py ''N'', JObj [(py ''x'', JInt 1), (py ''y'', JInt 2)])])
     [(py ''N'', JObj [(py ''y'', JInt 3)])] =
   [(py ''N'', JObj [(py ''y'', JInt 3)])]"
  by simp

subsection \<open>Validating the required keys\<close>

text \<open>
  C2. \<open>require_str\<close> fails exactly when the key is violated: absent, not a string, or a
  string with no character that is not whitespace. When it fails, the error is the
  \<open>ValueError\<close> whose message is the key followed by
  " not found in appsettings.Development.json", whichever file the key was expected from;
  when it succeeds, it returns the stored string. In \<open>main\<close>, validation of the merged
  configuration fails exactly when one of \<open>ModelName\<close>, \<open>Endpoint\<close>, \<open>ApiKey\<close> is violated,
  and the error names a violated key among them.
\<close>

theorem require_str_validation:
  "((\<exists>e. require_str config key = Inl e) \<longleftrightarrow> violated config key) \<and>
   (violated config key \<longrightarrow>
      require_str config key =
        Inl (ValueError (key @ py '' not found in appsettings.Development.json''))) \<and>
   (\<not> violated config key \<longrightarrow>
      (\<exists>s. map_of config key = Some (JStr s) \<and> require_str config key = Inr s)) \<and>
   (main_config fs here = Inr config \<longrightarrow>
      ((\<exists>e. main_settings fs here = Inl e) \<longleftrightarrow> (\<exists>k\<in>set required_keys. violated config k)) \<and>
      (\<forall>e. main_settings fs here = Inl e \<longrightarrow>
         (\<exists>k\<in>set required_keys. violated config k \<and>
            e = ValueError (k @ py '' not found in appsettings.Development.json''))))"
proof (intro conjI impI)
  show "(\<exists>e. require_str config key = Inl e) \<longleftrightarrow> violated config key"
  proof (cases "violated config key")
    case True
    then show ?thesis by (simp add: require_str_violated)
  next
    case False
    then obtain s where "require_str config key = Inr s"
      using require_str_valid by blast
    with False show ?thesis by simp
  qed
next
  assume "violated config key"
  then show "require_str config key =
      Inl (ValueError (key @ py '' not found in appsettings.Development.json''))"
    by (rule require_str_violated)
next
  assume "\<not> violated config key"
  then show "\<exists>s. map_of config key = Some (JStr s) \<and> require_str config key = Inr s"
    by (rule require_str_valid)
next
  assume c: "main_config fs here = Inr config"
  show "(\<exists>e. main_settings fs here = Inl e) \<longleftrightarrow> (\<exists>k\<in>set required_keys. violated config k)"
    using main_settings_cases [OF c] by auto
next
  assume c: "main_config fs here = Inr config"
  show "\<forall>e. main_settings fs here = Inl e \<longrightarrow>
         (\<exists>k\<in>set required_keys. violated config k \<and>
            e = ValueError (k @ py '' not found in appsettings.Development.json''))"
    using main_settings_cases [OF c] by auto
qed

text \<open>
  The specification's example: the development file
  \<open>{"ModelName":"  ", "Endpoint":"e", "ApiKey":"k"}\<close> fails validation naming \<open>ModelName\<close>.
\<close>

theorem require_str_validation_witness:
  "violated ex_blank_doc (py ''ModelName'') \<and>
   require_str ex_blank_doc (py ''ModelName'') =
     Inl (ValueError (py ''ModelName not found in appsettings.Development.json'')) \<and>
   main_config (ex_fs_dev ex_blank_doc) ex_here = Inr ex_blank_doc \<and>
   (\<exists>e. main_settings (ex_fs_dev ex_blank_doc) ex_here = Inl e) \<and>
   main_settings (ex_fs_dev ex_blank_doc) ex_here =
     Inl (ValueError (py ''ModelName not found in appsettings.Development.json''))"
proof -
  note t = require_str_validation [of ex_blank_doc "py ''ModelName''" "ex_fs_dev ex_blank_doc" ex_here]
  have v: "violated ex_blank_doc (py ''ModelName'')"
    by (rule ex_blank_violated)
  have "require_str ex_blank_doc (py ''ModelName'') =
      Inl (ValueError (py ''ModelName'' @ py '' not found in appsettings.Development.json''))"
    using t v by blast
  then have r: "require_str ex_blank_doc (py ''ModelName'') =
      Inl (ValueError (py ''ModelName not found in appsettings.Development.json''))"
    by (simp add: py_def)
  have "py ''ModelName'' \<in> set required_keys"
    by (simp add: required_keys_def)
  with t v ex_blank_config have f: "\<exists>e. main_settings (ex_fs_dev ex_blank_doc) ex_here = Inl e"
    by blast
  from v r f ex_blank_config ex_blank_settings show ?thesis by blast
qed

subsection \<open>Choosing the development file\<close>







subsection \<open>The optional base file\<close>




subsection \<open>Settings from the development file alone\<close>

text \<open>
  C5. When no base file is resolved and the development document holds \<open>ModelName\<close>,
  \<open>Endpoint\<close> and \<open>ApiKey\<close> as strings that each have a character that is not whitespace,
  validation succeeds and the three settings are exactly the stored strings, untrimmed.
  Nothing else of the document matters: whatever other keys it has, the result is these
  three strings, and they are what the chat client is constructed with.
\<close>

theorem dev_only_settings_verbatim:
  assumes "resolve_appsettings_paths fs here = Inr (None, dp)"
    and "fs dp = Found (Document doc)" and "is_dict doc"
    and "map_of doc (py ''ModelName'') = Some (JStr m)" and "\<exists>c\<in>set m. \<not> py_isspace c"
    and "map_of doc (py ''Endpoint'') = Some (JStr e)" and "\<exists>c\<in>set e. \<not> py_isspace c"
    and "map_of doc (py ''ApiKey'') = Some (JStr a)" and "\<exists>c\<in>set a. \<not> py_isspace c"
  shows "main_settings fs here = Inr (m, e, a) \<and>
         (\<exists>tr. fst (main fs here lib stdin) =
            Print (py ''=== Running: AgentFrameworkPython ==='' @ [10]) # NewClient e m a # tr)"
proof -
  define config where "config = dict_ior [] doc"
  have c: "main_config fs here = Inr config"
    unfolding config_def using assms(1,2) by (rule main_config_dev_only)
  have look: "map_of config = map_of doc"
    unfolding config_def using assms(3) by (rule dict_ior_Nil_map_of)
  have "require_str config (py ''ModelName'') = Inr m"
    using assms(4,5) by (intro require_str_Some) (simp_all add: look)
  moreover have "require_str config (py ''Endpoint'') = Inr e"
    using assms(6,7) by (intro require_str_Some) (simp_all add: look)
  moreover have "require_str config (py ''ApiKey'') = Inr a"
    using assms(8,9) by (intro require_str_Some) (simp_all add: look)
  ultimately have s: "main_settings fs here = Inr (m, e, a)"
    by (simp add: main_settings_def c)
  from s main_starts_with_client [OF s] show ?thesis by blast
qed

text \<open>
  A development file with a padded \<open>ModelName\<close> and a key that is not required: the padding
  stays and the extra key is ignored.
\<close>

theorem dev_only_settings_verbatim_witness:
  "resolve_appsettings_paths (ex_fs_dev ex_valid_doc) ex_here =
     Inr (None, [py ''repo'', py ''AgentFrameworkPython'', py ''appsettings.Development.json'']) \<and>
   ex_fs_dev ex_valid_doc
     [py ''repo'', py ''AgentFrameworkPython'', py ''appsettings.Development.json''] =
     Found (Document ex_valid_doc) \<and>
   is_dict ex_valid_doc \<and>
   map_of ex_valid_doc (py ''Verbose'') = Some (JBool True) \<and>
   main_settings (ex_fs_dev ex_valid_doc) ex_here =
     Inr (py '' gpt-4o '', py ''https://e'', py ''k'')"
proof -
  have f: "ex_fs_dev ex_valid_doc
     [py ''repo'', py ''AgentFrameworkPython'', py ''appsettings.Development.json''] =
     Found (Document ex_valid_doc)"
    by (simp add: ex_fs_dev_def)
  have v: "map_of ex_valid_doc (py ''Verbose'') = Some (JBool True)"
    by (simp add: ex_valid_doc_def py_def)
  from dev_only_settings_verbatim [OF ex_dev_resolve f ex_valid_lookups(1)
      ex_valid_lookups(2) ex_nonblank(1) ex_valid_lookups(3) ex_nonblank(2)
      ex_valid_lookups(4) ex_nonblank(3), of ex_lib "[]"]
  have "main_settings (ex_fs_dev ex_valid_doc) ex_here =
     Inr (py '' gpt-4o '', py ''https://e'', py ''k'')"
    by blast
  with ex_dev_resolve f ex_valid_lookups(1) v show ?thesis by blast
qed

subsection \<open>The interactive loop\<close>

text \<open>
  C7. In an iteration in which \<open>input\<close> gives a line that is empty or all whitespace, the
  loop shows the prompt, reads the line and does nothing else: \<open>run_stream\<close> is not called
  for it, the conversation thread is as before, and the loop goes on to the next
  iteration, which starts by showing the prompt and reading again. A reading during which
  no SIGINT arrives gives its line and leaves the interrupt count as it was.
\<close>

theorem blank_line_is_skipped:
  assumes "\<forall>c\<in>set line. py_isspace c"
    and "input_call interrupt_count rd = (Inr line, n)"
  shows "fst (main_loop rs interrupt_count thread (rd # rest)) =
           Input (py ''user> '') # fst (main_loop rs n thread rest) \<and>
         snd (main_loop rs interrupt_count thread (rd # rest)) =
           snd (main_loop rs n thread rest) \<and>
         submitted (fst (main_loop rs interrupt_count thread (rd # rest))) =
           submitted (fst (main_loop rs n thread rest)) \<and>
         (\<exists>tr. fst (main_loop rs n thread rest) = Input (py ''user> '') # tr) \<and>
         input_call interrupt_count (0, Inr line) = (Inr line, interrupt_count)"
proof -
  from assms(1) have "py_strip line = []"
    by (simp add: py_strip_empty_iff)
  with assms(2) have "main_loop rs interrupt_count thread (rd # rest) =
      after [Input (py ''user> '')] (main_loop rs n thread rest)"
    by (rule main_loop_blank)
  then show ?thesis
    using main_loop_prompts_first [of rs n thread rest] input_call_quiet
    by (simp del: main_loop.simps)
qed

theorem blank_line_is_skipped_witness:
  "list_all py_isspace (py ''   '') \<and>
   input_call 0 (0, Inr (py ''   '')) = (Inr (py ''   ''), 0) \<and>
   fst (main_loop (run_stream ex_lib) 0 [] [(0, Inr (py ''   ''))]) =
     [Input (py ''user> ''), Input (py ''user> ''), Print [10]] \<and>
   snd (main_loop (run_stream ex_lib) 0 [] [(0, Inr (py ''   ''))]) = (Returned, 0) \<and>
   submitted (fst (main_loop (run_stream ex_lib) 0 [] [(0, Inr (py ''   ''))])) = []"
proof -
  have b: "\<forall>c\<in>set (py ''   ''). py_isspace c"
    by (simp add: py_def py_isspace_def)
  have q: "input_call 0 (0, Inr (py ''   '')) = (Inr (py ''   ''), 0)"
    by (rule input_call_quiet)
  note t = blank_line_is_skipped [OF b q, of "run_stream ex_lib" "[]" "[]"]
  have "fst (main_loop (run_stream ex_lib) 0 [] [(0, Inr (py ''   ''))]) =
     [Input (py ''user> ''), Input (py ''user> ''), Print [10]]"
    using t by (simp del: main_loop.simps add: main_loop.simps(1))
  moreover have "snd (main_loop (run_stream ex_lib) 0 [] [(0, Inr (py ''   ''))]) =
      (Returned, 0)"
    using t by (simp del: main_loop.simps add: main_loop.simps(1))
  moreover have "submitted (fst (main_loop (run_stream ex_lib) 0 [] [(0, Inr (py ''   ''))])) =
      []"
    using t by (simp del: main_loop.simps add: main_loop.simps(1))
  ultimately show ?thesis
    using b q by (simp add: list_all_iff del: main_loop.simps)
qed

text \<open>
  C10. In an iteration in which \<open>input\<close> gives a line with a character that is not
  whitespace, the text given to \<open>run_stream\<close> is \<open>line.strip()\<close>: the line is whitespace,
  then that text, then whitespace, and the text neither starts nor ends with whitespace,
  so what lies between its first and last character is submitted as it was typed. When no
  interrupt has been taken, the updates printed next are those \<open>run_stream\<close> gives for the
  thread and that text.
\<close>

theorem nonblank_line_is_submitted_stripped:
  assumes "\<exists>c\<in>set line. \<not> py_isspace c"
    and "input_call interrupt_count rd = (Inr line, n)"
  shows "(\<exists>tr. fst (main_loop rs interrupt_count thread (rd # rest)) =
            Input (py ''user> '') # Print (py ''agent> '') # RunStream (py_strip line) # tr) \<and>
         hd (submitted (fst (main_loop rs interrupt_count thread (rd # rest)))) =
           py_strip line \<and>
         (\<exists>pre suf. line = pre @ py_strip line @ suf \<and>
            list_all py_isspace pre \<and> list_all py_isspace suf) \<and>
         py_strip line \<noteq> [] \<and>
         \<not> py_isspace (hd (py_strip line)) \<and> \<not> py_isspace (last (py_strip line)) \<and>
         (n = 0 \<longrightarrow>
            (\<exists>tr. fst (main_loop rs interrupt_count thread (rd # rest)) =
               [Input (py ''user> ''), Print (py ''agent> ''), RunStream (py_strip line)] @
               printed (fst (rs thread (py_strip line))) @ tr)) \<and>
         input_call interrupt_count (0, Inr line) = (Inr line, interrupt_count)"
proof -
  from assms(1) have ne: "py_strip line \<noteq> []"
    by (simp add: py_strip_empty_iff)
  from main_loop_nonblank_starts [OF assms(2) ne]
  obtain tr where tr: "fst (main_loop rs interrupt_count thread (rd # rest)) =
      Input (py ''user> '') # Print (py ''agent> '') # RunStream (py_strip line) # tr"
    by blast
  then have s: "hd (submitted (fst (main_loop rs interrupt_count thread (rd # rest)))) =
      py_strip line"
    by (simp del: main_loop.simps)
  have p: "n = 0 \<longrightarrow>
      (\<exists>tr. fst (main_loop rs interrupt_count thread (rd # rest)) =
         [Input (py ''user> ''), Print (py ''agent> ''), RunStream (py_strip line)] @
         printed (fst (rs thread (py_strip line))) @ tr)"
  proof
    assume "n = 0"
    with assms(2) have "input_call interrupt_count rd = (Inr line, 0)"
      by simp
    from main_loop_nonblank [OF this ne]
    show "\<exists>tr. fst (main_loop rs interrupt_count thread (rd # rest)) =
         [Input (py ''user> ''), Print (py ''agent> ''), RunStream (py_strip line)] @
         printed (fst (rs thread (py_strip line))) @ tr"
      by (cases "snd (rs thread (py_strip line))") (simp_all del: main_loop.simps)
  qed
  from tr s p show ?thesis
    using ne py_strip_decompose [of line] py_strip_ends [OF ne] input_call_quiet by blast
qed

theorem nonblank_line_is_submitted_stripped_witness:
  "py_strip (py ''  hello  world '') = py ''hello  world'' \<and>
   input_call 0 (0, Inr (py ''  hello  world '')) = (Inr (py ''  hello  world ''), 0) \<and>
   (\<exists>tr. fst (main_loop (run_stream ex_lib) 0 [] [(0, Inr (py ''  hello  world ''))]) =
      Input (py ''user> '') # Print (py ''agent> '') # RunStream (py ''hello  world'') # tr) \<and>
   hd (submitted (fst (main_loop (run_stream ex_lib) 0 []
     [(0, Inr (py ''  hello  world ''))]))) = py ''hello  world''"
proof -
  have n: "\<exists>c\<in>set (py ''  hello  world ''). \<not> py_isspace c"
    by (simp add: py_def py_isspace_def)
  have q: "input_call 0 (0, Inr (py ''  hello  world '')) = (Inr (py ''  hello  world ''), 0)"
    by (rule input_call_quiet)
  note t = nonblank_line_is_submitted_stripped [OF n q, of "run_stream ex_lib" "[]" "[]"]
  from t have "(\<exists>tr. fst (main_loop (run_stream ex_lib) 0 [] [(0, Inr (py ''  hello  world ''))]) =
      Input (py ''user> '') # Print (py ''agent> '') # RunStream (py_strip (py ''  hello  world '')) # tr) \<and>
   hd (submitted (fst (main_loop (run_stream ex_lib) 0 []
     [(0, Inr (py ''  hello  world ''))]))) = py_strip (py ''  hello  world '')"
    by blast
  then show ?thesis
    unfolding ex_strip using q by blast
qed

text \<open>
  C8. The loop itself does what the specification says: when \<open>input\<close> raises \<open>EOFError\<close> or
  \<open>KeyboardInterrupt\<close> it prints a newline and leaves, and with no interrupt the process
  ends with status 0. An interrupt at the read point does not arrive that way. The first
  SIGINT is taken by the handler of \<open>asyncio.run\<close>, which cancels the task and lets \<open>input\<close>
  go on waiting: the loop is not left. When the loop then ends, by end-of-input or by a
  second SIGINT that the \<open>except\<close> clause catches, \<open>main\<close> returns, but the task ends
  cancelled and \<open>asyncio.run\<close> raises \<open>KeyboardInterrupt\<close>; and a line typed after the first
  SIGINT starts a stream that is cancelled at once. In each case the status is not 0.
\<close>

theorem interrupt_at_read_point_is_not_clean:
  "main (ex_fs_dev ex_valid_doc) ex_here ex_lib [(1, Inl EOFError)] =
     ([Print (py ''=== Running: AgentFrameworkPython ==='' @ [10]),
       NewClient (py ''https://e'') (py '' gpt-4o '') (py ''k''),
       CreateAgent (py ''say '' @ [39] @ py ''just a second'' @ [39] @
                    py '' before answering question'') [py ''get_weather''] (py ''myagent''),
       GetNewThread, Input (py ''user> ''), Print [10]],
      Returned, 1) \<and>
   snd (script (ex_fs_dev ex_valid_doc) ex_here ex_lib [(1, Inl EOFError)]) =
     Raised KeyboardInterrupt \<and>
   exit_code (snd (script (ex_fs_dev ex_valid_doc) ex_here ex_lib [(1, Inl EOFError)])) = 130 \<and>
   snd (main (ex_fs_dev ex_valid_doc) ex_here ex_lib [(2, Inr (py ''hi''))]) = (Returned, 2) \<and>
   exit_code (snd (script (ex_fs_dev ex_valid_doc) ex_here ex_lib [(2, Inr (py ''hi''))])) =
     130 \<and>
   snd (main (ex_fs_dev ex_valid_doc) ex_here ex_lib [(1, Inr (py ''hi''))]) =
     (Raised CancelledError, 1) \<and>
   submitted (fst (main (ex_fs_dev ex_valid_doc) ex_here ex_lib [(1, Inr (py ''hi''))])) =
     [py ''hi''] \<and>
   exit_code (snd (script (ex_fs_dev ex_valid_doc) ex_here ex_lib [(1, Inr (py ''hi''))])) =
     130 \<and>
   exit_code (snd (script (ex_fs_dev ex_valid_doc) ex_here ex_lib [(0, Inl EOFError)])) = 0"
proof -
  have a: "main (ex_fs_dev ex_valid_doc) ex_here ex_lib [(1, Inl EOFError)] =
     ([Print (py ''=== Running: AgentFrameworkPython ==='' @ [10]),
       NewClient (py ''https://e'') (py '' gpt-4o '') (py ''k''),
       CreateAgent (py ''say '' @ [39] @ py ''just a second'' @ [39] @
                    py '' before answering question'') [py ''get_weather''] (py ''myagent''),
       GetNewThread, Input (py ''user> ''), Print [10]],
      Returned, 1)"
    unfolding ex_main ex_loop_sigint_then_eof after_def by simp
  have b: "snd (script (ex_fs_dev ex_valid_doc) ex_here ex_lib [(1, Inl EOFError)]) =
     Raised KeyboardInterrupt"
    unfolding script_def a asyncio_run_def by simp
  have c: "snd (main (ex_fs_dev ex_valid_doc) ex_here ex_lib [(2, Inr (py ''hi''))]) =
      (Returned, 2)"
    unfolding ex_main ex_loop_two_sigints after_def by simp
  have d: "snd (script (ex_fs_dev ex_valid_doc) ex_here ex_lib [(2, Inr (py ''hi''))]) =
     Raised KeyboardInterrupt"
    unfolding script_def ex_main ex_loop_two_sigints after_def asyncio_run_def by simp
  have e: "snd (main (ex_fs_dev ex_valid_doc) ex_here ex_lib [(1, Inr (py ''hi''))]) =
     (Raised CancelledError, 1)"
    unfolding ex_main ex_loop_sigint_then_line after_def by simp
  have f: "submitted (fst (main (ex_fs_dev ex_valid_doc) ex_here ex_lib
      [(1, Inr (py ''hi''))])) = [py ''hi'']"
    unfolding ex_main ex_loop_sigint_then_line after_def by (simp add: submitted_def)
  have g: "snd (script (ex_fs_dev ex_valid_doc) ex_here ex_lib [(1, Inr (py ''hi''))]) =
     Raised KeyboardInterrupt"
    unfolding script_def ex_main ex_loop_sigint_then_line after_def asyncio_run_def by simp
  have h: "snd (script (ex_fs_dev ex_valid_doc) ex_here ex_lib [(0, Inl EOFError)]) = Returned"
    unfolding script_def ex_main ex_loop_eof after_def asyncio_run_def by simp
  show ?thesis
    unfolding b d g h using a c e f by (simp add: exit_code_def del: main_loop.simps)
qed

end
